theory Spec2Isabelle
  imports Main "HOL-Library.Word"
begin

section \<open>Data model\<close>

text \<open>
  The ledger of \<^verbatim>\<open>package gochain\<close>. Go's \<^verbatim>\<open>int64\<close> is a 64-bit word read in two's
  complement; Go's \<^verbatim>\<open>int\<close> (slice lengths, the length a peer reports) is only ever
  compared, never computed with, and is modelled as \<open>int\<close>. A Go string is a byte string.
  A \<^verbatim>\<open>nil\<close> slice and an empty slice are both the empty list: they have the same length
  and the same elements. Go renders them differently in JSON (\<^verbatim>\<open>null\<close> and \<^verbatim>\<open>[]\<close>), so the
  code can give two digests to what is one block here; no statement below depends on
  which digest a block has, only on the hash being a function of the block.
\<close>

type_synonym int64 = "64 word"

text \<open>
  Modelled from the spec: the field \<^verbatim>\<open>Fee\<close> of \<^verbatim>\<open>Transaction\<close>. The declaration of the
  struct in the ledger's source file has the fields \<^verbatim>\<open>Sender\<close>, \<^verbatim>\<open>Recipient\<close> and
  \<^verbatim>\<open>Amount\<close> only, while \<^verbatim>\<open>handler.Mine\<close> reads and writes \<^verbatim>\<open>Fee\<close>; its type is forced
  by \<^verbatim>\<open>Amount: tx.Fee\<close>.
\<close>

record Transaction =
  Sender :: string
  Recipient :: string
  Amount :: int64
  Fee :: int64

record Block =
  Index :: int64
  Timestamp :: int64
  Transactions :: "Transaction list"
  Proof :: int64
  PreviousHash :: string

text \<open>
  Modelled from the spec: the type \<^verbatim>\<open>StringSet\<close> with \<^verbatim>\<open>NewStringSet\<close>, \<^verbatim>\<open>Add\<close> and
  \<^verbatim>\<open>Keys\<close> is not among the source files. It is a set of unique addresses;
  \<^verbatim>\<open>Add\<close> reports whether the element was newly inserted; \<^verbatim>\<open>Keys\<close> enumerates the
  members in an order that carries no meaning (here: the order of insertion).
\<close>

type_synonym StringSet = "string list"

definition NewStringSet :: StringSet where
  "NewStringSet = []"

definition Add :: "StringSet \<Rightarrow> string \<Rightarrow> bool \<times> StringSet" where
  "Add s x = (if x \<in> set s then (False, s) else (True, s @ [x]))"

definition Keys :: "StringSet \<Rightarrow> string list" where
  "Keys s = s"

record Blockchain =
  chain_blocks :: "Block list"
  transactions :: "Transaction list"
  nodes :: StringSet

record blockchainInfo =
  Length :: int
  Chain :: "Block list"

text \<open>A run-time panic of the Go program is a value.\<close>

datatype error = IndexOutOfRange | SliceOutOfRange

section \<open>Hasher\<close>

text \<open>
  \<^verbatim>\<open>ComputeHashSha256\<close> (bytes to a hex digest) is not among the source files and
  \<^verbatim>\<open>json.Marshal\<close> belongs to Go's library: both are parameters, \<open>sha256\<close> and
  \<open>marshal\<close>, of everything that hashes. \<^verbatim>\<open>json.Marshal\<close> cannot fail on a \<^verbatim>\<open>Block\<close>
  (integers, strings and slices of such), and \<^verbatim>\<open>binary.Write\<close> of a byte slice into a
  buffer copies the bytes, so the two \<^verbatim>\<open>log.Fatalf\<close> branches of
  \<^verbatim>\<open>computeHashForBlock\<close> are dead and the function is the composition of the two.
\<close>

definition computeHashForBlock :: "(string \<Rightarrow> string) \<Rightarrow> (Block \<Rightarrow> string) \<Rightarrow> Block \<Rightarrow> string" where
  "computeHashForBlock sha256 marshal block = sha256 (marshal block)"

text \<open>A SHA-256 digest in hexadecimal has 64 characters.\<close>

definition hex_digest :: "(string \<Rightarrow> string) \<Rightarrow> bool" where
  "hex_digest sha256 = (\<forall>s. length (sha256 s) = 64)"

section \<open>Proof of work\<close>

text \<open>\<^verbatim>\<open>fmt.Sprintf("%d", n)\<close> for an \<^verbatim>\<open>int64\<close>: the decimal digits, after a minus sign
  when the number is negative.\<close>

fun decimal_nat :: "nat \<Rightarrow> string" where
  "decimal_nat n =
     (if n < 10 then [''0123456789'' ! n]
      else decimal_nat (n div 10) @ [''0123456789'' ! (n mod 10)])"

declare decimal_nat.simps [simp del]

definition decimal :: "int64 \<Rightarrow> string" where
  "decimal n = (if sint n < 0 then CHR ''-'' # decimal_nat (nat (- sint n)) else decimal_nat (nat (sint n)))"

text \<open>\<^verbatim>\<open>guessHash[:4]\<close> panics when the string is shorter than four bytes.\<close>

definition ValidProof :: "(string \<Rightarrow> string) \<Rightarrow> int64 \<Rightarrow> int64 \<Rightarrow> error + bool" where
  "ValidProof sha256 lastProof proof =
     (let guess = decimal lastProof @ decimal proof;
          guessHash = sha256 guess
      in if length guessHash < 4 then Inl SliceOutOfRange
         else Inr (take 4 guessHash = ''0000''))"

text \<open>
  The search loop of \<^verbatim>\<open>ProofOfWork\<close> has no bound: not returning is the value \<open>None\<close>.
  \<^verbatim>\<open>proof += 1\<close> wraps around at \<open>2 ^ 63\<close>.
\<close>

partial_function (option) ProofOfWork_loop ::
  "(string \<Rightarrow> string) \<Rightarrow> int64 \<Rightarrow> int64 \<Rightarrow> (error + int64) option" where
  "ProofOfWork_loop sha256 lastProof proof =
     (case ValidProof sha256 lastProof proof of
        Inl e \<Rightarrow> Some (Inl e)
      | Inr ok \<Rightarrow> if ok then Some (Inr proof)
                 else ProofOfWork_loop sha256 lastProof (proof + 1))"

declare ProofOfWork_loop.simps [code]

definition ProofOfWork :: "(string \<Rightarrow> string) \<Rightarrow> int64 \<Rightarrow> (error + int64) option" where
  "ProofOfWork sha256 lastProof = ProofOfWork_loop sha256 lastProof 0"

section \<open>Chain validator\<close>

text \<open>
  \<^verbatim>\<open>ValidChain\<close> reads \<^verbatim>\<open>(*chain)[0]\<close> before anything else, which panics on an
  empty slice; then it walks the slice by index. The name \<open>chain\<close> belongs to a constant
  of HOL, so the slice is called \<open>blocks\<close> here.
\<close>

function ValidChain_loop ::
  "(string \<Rightarrow> string) \<Rightarrow> (Block \<Rightarrow> string) \<Rightarrow> Block list \<Rightarrow> Block \<Rightarrow> nat \<Rightarrow> error + bool" where
  "ValidChain_loop sha256 marshal blocks lastBlock currentIndex =
     (if currentIndex < length blocks then
        (let block = blocks ! currentIndex in
         if PreviousHash block \<noteq> computeHashForBlock sha256 marshal lastBlock then Inr False
         else (case ValidProof sha256 (Proof lastBlock) (Proof block) of
                 Inl e \<Rightarrow> Inl e
               | Inr ok \<Rightarrow>
                   if \<not> ok then Inr False
                   else ValidChain_loop sha256 marshal blocks block (currentIndex + 1)))
      else Inr True)"
  by pat_completeness auto
termination
  by (relation "measure (\<lambda>(_, _, blocks, _, i). length blocks - i)") auto

declare ValidChain_loop.simps [simp del]

definition ValidChain ::
  "(string \<Rightarrow> string) \<Rightarrow> (Block \<Rightarrow> string) \<Rightarrow> Block list \<Rightarrow> error + bool" where
  "ValidChain sha256 marshal blocks =
     (if length blocks = 0 then Inl IndexOutOfRange
      else ValidChain_loop sha256 marshal blocks (blocks ! 0) 1)"

section \<open>Ledger operations\<close>

text \<open>
  Each method of \<^verbatim>\<open>*Blockchain\<close> takes the ledger and returns it updated.
  \<^verbatim>\<open>time.Now().UnixNano()\<close> is the parameter \<open>now\<close>.
\<close>

definition LastBlock :: "Blockchain \<Rightarrow> error + Block" where
  "LastBlock bc =
     (if length (chain_blocks bc) = 0 then Inl IndexOutOfRange
      else Inr (chain_blocks bc ! (length (chain_blocks bc) - 1)))"

definition NewBlock ::
  "(string \<Rightarrow> string) \<Rightarrow> (Block \<Rightarrow> string) \<Rightarrow> int64 \<Rightarrow> int64 \<Rightarrow> string \<Rightarrow> Blockchain
     \<Rightarrow> error + (Block \<times> Blockchain)" where
  "NewBlock sha256 marshal now proof previousHash bc =
     (case (if previousHash = []
            then (if length (chain_blocks bc) = 0 then Inl IndexOutOfRange
                  else Inr (computeHashForBlock sha256 marshal
                              (chain_blocks bc ! (length (chain_blocks bc) - 1))))
            else Inr previousHash) of
        Inl e \<Rightarrow> Inl e
      | Inr prevHash \<Rightarrow>
          (let newBlock = \<lparr>Index = of_nat (length (chain_blocks bc) + 1),
                           Timestamp = now,
                           Transactions = transactions bc,
                           Proof = proof,
                           PreviousHash = prevHash\<rparr>
           in Inr (newBlock,
                   bc\<lparr>transactions := [], chain_blocks := chain_blocks bc @ [newBlock]\<rparr>)))"

text \<open>\<^verbatim>\<open>NewTransaction\<close> appends to the pool before it reads the last block.\<close>

definition NewTransaction :: "Transaction \<Rightarrow> Blockchain \<Rightarrow> error + (int64 \<times> Blockchain)" where
  "NewTransaction tx bc =
     (let bc' = bc\<lparr>transactions := transactions bc @ [tx]\<rparr>
      in case LastBlock bc' of
           Inl e \<Rightarrow> Inl e
         | Inr lastBlock \<Rightarrow> Inr (Index lastBlock + 1, bc'))"

definition NewBlockchain ::
  "(string \<Rightarrow> string) \<Rightarrow> (Block \<Rightarrow> string) \<Rightarrow> int64 \<Rightarrow> error + Blockchain" where
  "NewBlockchain sha256 marshal now =
     (case NewBlock sha256 marshal now 100 ''1''
             \<lparr>chain_blocks = [], transactions = [], nodes = NewStringSet\<rparr> of
        Inl e \<Rightarrow> Inl e
      | Inr (_, newBlockchain) \<Rightarrow> Inr newBlockchain)"

section \<open>Peer registry\<close>

text \<open>
  \<^verbatim>\<open>url.Parse\<close> belongs to Go's library: it is the parameter \<open>url_Parse\<close>, \<open>None\<close> when it
  returns an error, and only the field \<^verbatim>\<open>Host\<close> of its result is read.
\<close>

record URL =
  Host :: string

definition RegisterNode ::
  "(string \<Rightarrow> URL option) \<Rightarrow> string \<Rightarrow> Blockchain \<Rightarrow> bool \<times> Blockchain" where
  "RegisterNode url_Parse address bc =
     (case url_Parse address of
        None \<Rightarrow> (False, bc)
      | Some u \<Rightarrow> (case Add (nodes bc) (Host u) of (r, s) \<Rightarrow> (r, bc\<lparr>nodes := s\<rparr>)))"

section \<open>Consensus\<close>

text \<open>
  The network is the parameter \<open>http_Get\<close>: for a URL, either the request fails, or there
  is a response with a status code and a body, whose JSON decoding into
  \<^verbatim>\<open>blockchainInfo\<close> fails (\<open>None\<close>) or gives a value. \<^verbatim>\<open>findExternalChain\<close> returns a
  pair; the second component says that the error is not \<^verbatim>\<open>nil\<close>. Where the request
  succeeds with a status other than 200, it returns the zero value together with the
  \<^verbatim>\<open>nil\<close> error of the request.
\<close>

datatype http_reply = GetError | Response nat "blockchainInfo option"

definition findExternalChain :: "(string \<Rightarrow> http_reply) \<Rightarrow> string \<Rightarrow> blockchainInfo \<times> bool" where
  "findExternalChain http_Get address =
     (case http_Get (''http://'' @ address @ ''/chain'') of
        GetError \<Rightarrow> (\<lparr>Length = 0, Chain = []\<rparr>, True)
      | Response statusCode body \<Rightarrow>
          if statusCode = 200 then
            (case body of
               None \<Rightarrow> (\<lparr>Length = 0, Chain = []\<rparr>, True)
             | Some bi \<Rightarrow> (bi, False))
          else (\<lparr>Length = 0, Chain = []\<rparr>, False))"

text \<open>The body of the loop of \<^verbatim>\<open>ResolveConflicts\<close>, on the pair of its two variables.\<close>

definition ResolveConflicts_body ::
  "(string \<Rightarrow> string) \<Rightarrow> (Block \<Rightarrow> string) \<Rightarrow> (string \<Rightarrow> http_reply) \<Rightarrow> string
     \<Rightarrow> int \<times> Block list \<Rightarrow> error + (int \<times> Block list)" where
  "ResolveConflicts_body sha256 marshal http_Get node st =
     (case st of (curmaxLength, tempChain) \<Rightarrow>
        (case findExternalChain http_Get node of (anotherchain, err) \<Rightarrow>
           if err then Inr (curmaxLength, tempChain)
           else (case ValidChain sha256 marshal (Chain anotherchain) of
                   Inl e \<Rightarrow> Inl e
                 | Inr ok \<Rightarrow>
                     if \<not> ok then Inr (curmaxLength, tempChain)
                     else if Length anotherchain > curmaxLength
                          then Inr (Length anotherchain, Chain anotherchain)
                          else Inr (curmaxLength, tempChain))))"

fun ResolveConflicts_loop ::
  "(string \<Rightarrow> string) \<Rightarrow> (Block \<Rightarrow> string) \<Rightarrow> (string \<Rightarrow> http_reply) \<Rightarrow> string list
     \<Rightarrow> int \<times> Block list \<Rightarrow> error + (int \<times> Block list)" where
  "ResolveConflicts_loop sha256 marshal http_Get [] st = Inr st"
| "ResolveConflicts_loop sha256 marshal http_Get (node # rest) st =
     (case ResolveConflicts_body sha256 marshal http_Get node st of
        Inl e \<Rightarrow> Inl e
      | Inr st' \<Rightarrow> ResolveConflicts_loop sha256 marshal http_Get rest st')"

definition ResolveConflicts ::
  "(string \<Rightarrow> string) \<Rightarrow> (Block \<Rightarrow> string) \<Rightarrow> (string \<Rightarrow> http_reply) \<Rightarrow> Blockchain
     \<Rightarrow> error + (bool \<times> Blockchain)" where
  "ResolveConflicts sha256 marshal http_Get bc =
     (let authority = True
      in case ResolveConflicts_loop sha256 marshal http_Get (Keys (nodes bc))
                (int (length (chain_blocks bc)), chain_blocks bc) of
           Inl e \<Rightarrow> Inl e
         | Inr (curmaxLength, tempChain) \<Rightarrow> Inr (\<not> authority, bc\<lparr>chain_blocks := tempChain\<rparr>))"

section \<open>The mining handler\<close>

record handler =
  blockchain :: Blockchain
  nodeId :: string

text \<open>
  The retry loop of \<^verbatim>\<open>handler.Mine\<close>. Nothing else runs between its steps here, so the
  ledger it reads is the same at every turn.
\<close>

partial_function (option) Mine_loop ::
  "(string \<Rightarrow> string) \<Rightarrow> Blockchain \<Rightarrow> (error + int64) option" where
  "Mine_loop sha256 bc =
     (case LastBlock bc of
        Inl e \<Rightarrow> Some (Inl e)
      | Inr lastBlock \<Rightarrow>
          Option.bind (ProofOfWork sha256 (Proof lastBlock)) (\<lambda>r.
            case r of
              Inl e \<Rightarrow> Some (Inl e)
            | Inr proof \<Rightarrow>
                if proof = - 1 then Mine_loop sha256 bc
                else (case LastBlock bc of
                        Inl e \<Rightarrow> Some (Inl e)
                      | Inr lastBlock' \<Rightarrow>
                          (case ValidProof sha256 (Proof lastBlock') proof of
                             Inl e \<Rightarrow> Some (Inl e)
                           | Inr ok \<Rightarrow>
                               if \<not> ok then Mine_loop sha256 bc else Some (Inr proof)))))"

declare Mine_loop.simps [code]

text \<open>The loop that credits the fee of every transaction captured before the search.\<close>

fun Mine_fees :: "string \<Rightarrow> Transaction list \<Rightarrow> Blockchain \<Rightarrow> error + Blockchain" where
  "Mine_fees nid [] bc = Inr bc"
| "Mine_fees nid (tx # rest) bc =
     (case NewTransaction \<lparr>Sender = Sender tx, Recipient = nid, Amount = Fee tx, Fee = 0\<rparr> bc of
        Inl e \<Rightarrow> Inl e
      | Inr (_, bc') \<Rightarrow> Mine_fees nid rest bc')"

definition Mine ::
  "(string \<Rightarrow> string) \<Rightarrow> (Block \<Rightarrow> string) \<Rightarrow> (string \<Rightarrow> http_reply) \<Rightarrow> int64 \<Rightarrow> handler
     \<Rightarrow> (error + (Block \<times> handler)) option" where
  "Mine sha256 marshal http_Get now h =
     (case ResolveConflicts sha256 marshal http_Get (blockchain h) of
        Inl e \<Rightarrow> Some (Inl e)
      | Inr (_, bc1) \<Rightarrow>
          (let txs = transactions bc1
           in Option.bind (Mine_loop sha256 bc1) (\<lambda>r.
                case r of
                  Inl e \<Rightarrow> Some (Inl e)
                | Inr proof \<Rightarrow>
                    (case Mine_fees (nodeId h) txs bc1 of
                       Inl e \<Rightarrow> Some (Inl e)
                     | Inr bc2 \<Rightarrow>
                         (case NewTransaction
                                 \<lparr>Sender = ''0'', Recipient = nodeId h, Amount = 1, Fee = 0\<rparr> bc2 of
                            Inl e \<Rightarrow> Some (Inl e)
                          | Inr (_, bc3) \<Rightarrow>
                              (case NewBlock sha256 marshal now proof [] bc3 of
                                 Inl e \<Rightarrow> Some (Inl e)
                               | Inr (block, bc4) \<Rightarrow>
                                   Some (Inr (block, h\<lparr>blockchain := bc4\<rparr>))))))))"

section \<open>Reachable ledgers\<close>

text \<open>
  The ledgers a node can hold: the one \<^verbatim>\<open>NewBlockchain\<close> makes, and every ledger that
  an operation which returns leaves behind. The predicate \<open>peers\<close> says which networks
  conflict resolution may meet. An operation that panics or does not return is no step.
\<close>

inductive reachable ::
  "(string \<Rightarrow> string) \<Rightarrow> (Block \<Rightarrow> string) \<Rightarrow> (string \<Rightarrow> URL option)
     \<Rightarrow> ((string \<Rightarrow> http_reply) \<Rightarrow> bool) \<Rightarrow> Blockchain \<Rightarrow> bool"
  for sha256 :: "string \<Rightarrow> string" and marshal :: "Block \<Rightarrow> string"
    and url_Parse :: "string \<Rightarrow> URL option" and peers :: "(string \<Rightarrow> http_reply) \<Rightarrow> bool"
where
  r_init: "NewBlockchain sha256 marshal now = Inr bc
     \<Longrightarrow> reachable sha256 marshal url_Parse peers bc"
| r_block: "reachable sha256 marshal url_Parse peers bc
     \<Longrightarrow> NewBlock sha256 marshal now proof previousHash bc = Inr (b, bc')
     \<Longrightarrow> reachable sha256 marshal url_Parse peers bc'"
| r_transaction: "reachable sha256 marshal url_Parse peers bc
     \<Longrightarrow> NewTransaction tx bc = Inr (i, bc')
     \<Longrightarrow> reachable sha256 marshal url_Parse peers bc'"
| r_register: "reachable sha256 marshal url_Parse peers bc
     \<Longrightarrow> RegisterNode url_Parse address bc = (r, bc')
     \<Longrightarrow> reachable sha256 marshal url_Parse peers bc'"
| r_resolve: "reachable sha256 marshal url_Parse peers bc
     \<Longrightarrow> peers http_Get
     \<Longrightarrow> ResolveConflicts sha256 marshal http_Get bc = Inr (r, bc')
     \<Longrightarrow> reachable sha256 marshal url_Parse peers bc'"
| r_mine: "reachable sha256 marshal url_Parse peers bc
     \<Longrightarrow> peers http_Get
     \<Longrightarrow> Mine sha256 marshal http_Get now \<lparr>blockchain = bc, nodeId = nid\<rparr> = Some (Inr (b, h'))
     \<Longrightarrow> reachable sha256 marshal url_Parse peers (blockchain h')"

section \<open>Predicates of the statements\<close>

text \<open>The two checks \<^verbatim>\<open>ValidChain\<close> makes on a block and the one before it.\<close>

definition link_ok :: "(string \<Rightarrow> string) \<Rightarrow> (Block \<Rightarrow> string) \<Rightarrow> Block \<Rightarrow> Block \<Rightarrow> bool" where
  "link_ok sha256 marshal prev cur \<longleftrightarrow>
     PreviousHash cur = computeHashForBlock sha256 marshal prev
     \<and> ValidProof sha256 (Proof prev) (Proof cur) = Inr True"

text \<open>Indices that count from 1, as \<^verbatim>\<open>NewBlock\<close> assigns them.\<close>

definition sequential :: "Block list \<Rightarrow> bool" where
  "sequential blocks = (map Index blocks = map (\<lambda>i. of_nat (i + 1)) [0..<length blocks])"

text \<open>A network in which every chain a peer sends with status 200 is numbered from 1.\<close>

definition numbered_peers :: "(string \<Rightarrow> http_reply) \<Rightarrow> bool" where
  "numbered_peers http_Get =
     (\<forall>url bi. http_Get url = Response 200 (Some bi) \<longrightarrow> sequential (Chain bi))"

text \<open>Any network at all.\<close>

definition any_peers :: "(string \<Rightarrow> http_reply) \<Rightarrow> bool" where
  "any_peers http_Get = True"

section \<open>Example instances\<close>

text \<open>
  Stand-ins for the parameters, to run the definitions on concrete inputs:
  \<open>sha256_stub\<close> is not SHA-256, it only has the shape of a hex digest, and accepts a
  proof when the guess ends with the digit 7; \<open>marshal_stub\<close> renders three fields of a
  block; \<open>url_Parse_stub\<close> answers as \<^verbatim>\<open>url.Parse\<close> does on the three addresses used
  below: the host of \<^verbatim>\<open>http://a\<close> is \<^verbatim>\<open>a\<close>; \<^verbatim>\<open>localhost:5000\<close> parses without error,
  as the scheme \<^verbatim>\<open>localhost\<close> with the opaque part \<^verbatim>\<open>5000\<close> and an empty host; and
  \<^verbatim>\<open>%zz\<close> is an invalid escape, an error.
\<close>

definition sha256_stub :: "string \<Rightarrow> string" where
  "sha256_stub s =
     (if s \<noteq> [] \<and> last s = CHR ''7''
      then ''0000000000000000000000000000000000000000000000000000000000000000''
      else ''ffffffffffffffffffffffffffffffffffffffffffffffffffffffffffffffff'')"

definition marshal_stub :: "Block \<Rightarrow> string" where
  "marshal_stub b = decimal (Index b) @ '','' @ decimal (Proof b) @ '','' @ PreviousHash b"

definition url_Parse_stub :: "string \<Rightarrow> URL option" where
  "url_Parse_stub address =
     (if address = ''http://a'' then Some \<lparr>Host = ''a''\<rparr>
      else if address = ''localhost:5000'' then Some \<lparr>Host = ''''\<rparr>
      else None)"

definition genesis_block :: Block where
  "genesis_block =
     \<lparr>Index = 1, Timestamp = 0, Transactions = [], Proof = 100, PreviousHash = ''1''\<rparr>"

definition second_block :: Block where
  "second_block =
     \<lparr>Index = 2, Timestamp = 1, Transactions = [], Proof = 7,
      PreviousHash = ''ffffffffffffffffffffffffffffffffffffffffffffffffffffffffffffffff''\<rparr>"

definition misnumbered_block :: Block where
  "misnumbered_block =
     \<lparr>Index = 5, Timestamp = 1, Transactions = [], Proof = 7,
      PreviousHash = ''ffffffffffffffffffffffffffffffffffffffffffffffffffffffffffffffff''\<rparr>"

definition genesis_ledger :: Blockchain where
  "genesis_ledger = \<lparr>chain_blocks = [genesis_block], transactions = [], nodes = []\<rparr>"

definition ledger_a :: Blockchain where
  "ledger_a = \<lparr>chain_blocks = [genesis_block], transactions = [], nodes = [''a'']\<rparr>"

text \<open>Peer \<^verbatim>\<open>a\<close> serves a chain one block longer than the fresh ledger.\<close>

definition http_Get_longer :: "string \<Rightarrow> http_reply" where
  "http_Get_longer url =
     (if url = ''http://a/chain''
      then Response 200 (Some \<lparr>Length = 2, Chain = [genesis_block, second_block]\<rparr>)
      else GetError)"

text \<open>Peer \<^verbatim>\<open>a\<close> serves a chain whose second block carries the index 5.\<close>

definition http_Get_misnumbered :: "string \<Rightarrow> http_reply" where
  "http_Get_misnumbered url =
     (if url = ''http://a/chain''
      then Response 200 (Some \<lparr>Length = 2, Chain = [genesis_block, misnumbered_block]\<rparr>)
      else GetError)"

text \<open>Every request is answered with status 404 and a body that is not read.\<close>

definition http_Get_404 :: "string \<Rightarrow> http_reply" where
  "http_Get_404 url = Response 404 None"

text \<open>Every request is answered with status 200 and the body \<^verbatim>\<open>{"length":0,"chain":[]}\<close>.\<close>

definition http_Get_empty :: "string \<Rightarrow> http_reply" where
  "http_Get_empty url = Response 200 (Some \<lparr>Length = 0, Chain = []\<rparr>)"

text \<open>No request succeeds.\<close>

definition http_Get_down :: "string \<Rightarrow> http_reply" where
  "http_Get_down url = GetError"

definition tx_fee5 :: Transaction where
  "tx_fee5 = \<lparr>Sender = ''alice'', Recipient = ''bob'', Amount = 10, Fee = 5\<rparr>"

definition tx_negative_fee :: Transaction where
  "tx_negative_fee = \<lparr>Sender = ''alice'', Recipient = ''bob'', Amount = 10, Fee = - 5\<rparr>"

text \<open>A node \<^verbatim>\<open>n1\<close> whose pool holds one transaction with the fee 5.\<close>

definition ledger_fee5 :: Blockchain where
  "ledger_fee5 = \<lparr>chain_blocks = [genesis_block], transactions = [tx_fee5], nodes = [''a'']\<rparr>"

definition miner :: handler where
  "miner = \<lparr>blockchain = ledger_fee5, nodeId = ''n1''\<rparr>"

section \<open>Proof of work: lemmas\<close>

lemma ValidProof_digest:
  "hex_digest sha256 \<Longrightarrow>
     ValidProof sha256 lastProof p = Inr (take 4 (sha256 (decimal lastProof @ decimal p)) = ''0000'')"
  by (simp add: ValidProof_def hex_digest_def Let_def)

lemma ValidProof_not_True:
  "hex_digest sha256 \<Longrightarrow> ValidProof sha256 lastProof p \<noteq> Inr True
     \<Longrightarrow> ValidProof sha256 lastProof p = Inr False"
  by (simp add: ValidProof_digest)

lemma ProofOfWork_loop_steps:
  assumes "ValidProof sha256 lastProof (of_nat n) = Inr True"
    and "\<forall>j<n. ValidProof sha256 lastProof (of_nat j) = Inr False"
    and "k \<le> n"
  shows "ProofOfWork_loop sha256 lastProof (of_nat k) = Some (Inr (of_nat n))"
  using assms(3)
proof (induction rule: inc_induct)
  case base
  show ?case using assms(1) by (subst ProofOfWork_loop.simps) simp
next
  case (step m)
  have "ValidProof sha256 lastProof (of_nat m) = Inr False"
    using assms(2) step.hyps by simp
  then show ?case using step.IH
    by (subst ProofOfWork_loop.simps) (simp add: add.commute)
qed

lemma int64_of_nat_sint: "0 \<le> sint (p :: int64) \<Longrightarrow> of_nat (nat (sint p)) = p"
  by simp

lemma sint_int64_of_nat: "n < 2 ^ 63 \<Longrightarrow> sint (of_nat n :: int64) = int n"
  by (simp add: signed_of_nat signed_take_bit_int_eq_self)

lemma sint_int64_bound: "nat (sint (p :: int64)) < 2 ^ 63"
  using sint_lt [of p] by simp

lemma ProofOfWork_least_aux:
  assumes dg: "hex_digest sha256"
    and nonneg: "0 \<le> sint p"
    and valid: "ValidProof sha256 lastProof p = Inr True"
  shows "\<exists>r. ProofOfWork sha256 lastProof = Some (Inr r) \<and> 0 \<le> sint r \<and> sint r \<le> sint p
           \<and> ValidProof sha256 lastProof r = Inr True
           \<and> (\<forall>q. 0 \<le> sint q \<and> sint q < sint r \<longrightarrow> ValidProof sha256 lastProof q = Inr False)"
proof -
  define ok where "ok n \<longleftrightarrow> ValidProof sha256 lastProof (of_nat n) = Inr True" for n
  define n where "n = (LEAST n. ok n)"
  have okp: "ok (nat (sint p))"
    using nonneg valid by (simp add: ok_def)
  have okn: "ok n"
    unfolding n_def using okp by (rule LeastI)
  have n_le: "n \<le> nat (sint p)"
    unfolding n_def using okp by (rule Least_le)
  have n_small: "n < 2 ^ 63"
    using n_le sint_int64_bound [of p] by simp
  have below: "ValidProof sha256 lastProof (of_nat j) = Inr False" if "j < n" for j
  proof -
    have "\<not> ok j" using that unfolding n_def by (rule not_less_Least)
    then show ?thesis using dg by (simp add: ok_def ValidProof_not_True)
  qed
  have run: "ProofOfWork sha256 lastProof = Some (Inr (of_nat n))"
    unfolding ProofOfWork_def
    using ProofOfWork_loop_steps [of sha256 lastProof n 0] okn below by (simp add: ok_def)
  have sn: "sint (of_nat n :: int64) = int n"
    using n_small by (rule sint_int64_of_nat)
  have least: "ValidProof sha256 lastProof q = Inr False" if "0 \<le> sint q" "sint q < int n" for q
  proof -
    have "nat (sint q) < n" using that by simp
    then have "ValidProof sha256 lastProof (of_nat (nat (sint q))) = Inr False" by (rule below)
    then show ?thesis using that(1) by simp
  qed
  show ?thesis
    using run sn okn n_le nonneg least by (intro exI [of _ "of_nat n"]) (simp add: ok_def)
qed

section \<open>Chain validator: lemmas\<close>

lemma ValidChain_loop_eq:
  assumes dg: "hex_digest sha256"
  shows "0 < k \<Longrightarrow> k \<le> length blocks \<Longrightarrow>
     ValidChain_loop sha256 marshal blocks (blocks ! (k - 1)) k
       = Inr (\<forall>i. k \<le> i + 1 \<and> i + 1 < length blocks
                \<longrightarrow> link_ok sha256 marshal (blocks ! i) (blocks ! (i + 1)))"
proof (induction "length blocks - k" arbitrary: k)
  case 0
  then have "k = length blocks" by simp
  then show ?case by (subst ValidChain_loop.simps) auto
next
  case (Suc d)
  then have lt: "k < length blocks" by simp
  obtain v where v: "ValidProof sha256 (Proof (blocks ! (k - 1))) (Proof (blocks ! k)) = Inr v"
    using dg by (simp add: ValidProof_digest)
  show ?case
  proof (cases "link_ok sha256 marshal (blocks ! (k - 1)) (blocks ! k)")
    case False
    then have "ValidChain_loop sha256 marshal blocks (blocks ! (k - 1)) k = Inr False"
      using lt v by (subst ValidChain_loop.simps) (auto simp: link_ok_def Let_def)
    moreover have "\<not> (\<forall>i. k \<le> i + 1 \<and> i + 1 < length blocks
                \<longrightarrow> link_ok sha256 marshal (blocks ! i) (blocks ! (i + 1)))"
      using False lt Suc.prems(1) by (auto intro!: exI [of _ "k - 1"])
    ultimately show ?thesis by simp
  next
    case True
    have IH: "ValidChain_loop sha256 marshal blocks (blocks ! k) (k + 1)
       = Inr (\<forall>i. k + 1 \<le> i + 1 \<and> i + 1 < length blocks
                \<longrightarrow> link_ok sha256 marshal (blocks ! i) (blocks ! (i + 1)))"
      using Suc.hyps(1) [of "k + 1"] Suc.hyps(2) lt by simp
    have step: "ValidChain_loop sha256 marshal blocks (blocks ! (k - 1)) k
       = ValidChain_loop sha256 marshal blocks (blocks ! k) (k + 1)"
      using True lt by (subst ValidChain_loop.simps) (simp add: link_ok_def Let_def)
    have "(\<forall>i. k \<le> i + 1 \<and> i + 1 < length blocks
                \<longrightarrow> link_ok sha256 marshal (blocks ! i) (blocks ! (i + 1)))
       \<longleftrightarrow> (\<forall>i. k + 1 \<le> i + 1 \<and> i + 1 < length blocks
                \<longrightarrow> link_ok sha256 marshal (blocks ! i) (blocks ! (i + 1)))"
    proof (intro iffI allI impI)
      fix i assume a: "\<forall>i. k \<le> i + 1 \<and> i + 1 < length blocks
                \<longrightarrow> link_ok sha256 marshal (blocks ! i) (blocks ! (i + 1))"
        and "k + 1 \<le> i + 1 \<and> i + 1 < length blocks"
      then show "link_ok sha256 marshal (blocks ! i) (blocks ! (i + 1))" by simp
    next
      fix i assume a: "\<forall>i. k + 1 \<le> i + 1 \<and> i + 1 < length blocks
                \<longrightarrow> link_ok sha256 marshal (blocks ! i) (blocks ! (i + 1))"
        and b: "k \<le> i + 1 \<and> i + 1 < length blocks"
      show "link_ok sha256 marshal (blocks ! i) (blocks ! (i + 1))"
      proof (cases "i + 1 = k")
        case True
        then have "i = k - 1" by simp
        then show ?thesis using \<open>link_ok sha256 marshal (blocks ! (k - 1)) (blocks ! k)\<close> True by simp
      next
        case False
        then show ?thesis using a b by simp
      qed
    qed
    then show ?thesis using step IH by simp
  qed
qed

lemma ValidChain_eq:
  assumes "hex_digest sha256" and "blocks \<noteq> []"
  shows "ValidChain sha256 marshal blocks
       = Inr (\<forall>i. i + 1 < length blocks \<longrightarrow> link_ok sha256 marshal (blocks ! i) (blocks ! (i + 1)))"
  using ValidChain_loop_eq [OF assms(1), of 1 blocks marshal] assms(2)
  by (simp add: ValidChain_def Suc_le_eq)

lemma ValidChain_single: "ValidChain sha256 marshal [b] = Inr True"
  by (simp add: ValidChain_def ValidChain_loop.simps)

lemma ValidChain_empty: "ValidChain sha256 marshal [] = Inl IndexOutOfRange"
  by (simp add: ValidChain_def)

lemma ValidChain_Inr_nonempty: "ValidChain sha256 marshal blocks = Inr v \<Longrightarrow> blocks \<noteq> []"
  by (auto simp: ValidChain_def)

section \<open>Consensus: lemmas\<close>

lemma findExternalChain_cases:
  "findExternalChain http_Get address = (candidate, err) \<Longrightarrow>
     (err \<and> candidate = \<lparr>Length = 0, Chain = []\<rparr>)
     \<or> (\<not> err \<and> http_Get (''http://'' @ address @ ''/chain'') = Response 200 (Some candidate))
     \<or> (\<not> err \<and> candidate = \<lparr>Length = 0, Chain = []\<rparr>
          \<and> (\<exists>st body. st \<noteq> 200 \<and> http_Get (''http://'' @ address @ ''/chain'') = Response st body))"
  by (auto simp: findExternalChain_def split: http_reply.splits if_splits option.splits)

lemma body_skip:
  "findExternalChain http_Get node = (candidate, True) \<Longrightarrow>
     ResolveConflicts_body sha256 marshal http_Get node st = Inr st"
  by (simp add: ResolveConflicts_body_def split: prod.splits)

lemma body_fetched:
  "findExternalChain http_Get node = (candidate, False) \<Longrightarrow>
     ResolveConflicts_body sha256 marshal http_Get node (bestLength, best) =
       (case ValidChain sha256 marshal (Chain candidate) of
          Inl e \<Rightarrow> Inl e
        | Inr ok \<Rightarrow> Inr (if ok \<and> bestLength < Length candidate
                         then (Length candidate, Chain candidate) else (bestLength, best)))"
  by (simp add: ResolveConflicts_body_def split: sum.splits)

lemma body_result:
  assumes "ResolveConflicts_body sha256 marshal http_Get node st = Inr st'"
  shows "st' = st
     \<or> (\<exists>candidate. findExternalChain http_Get node = (candidate, False)
           \<and> ValidChain sha256 marshal (Chain candidate) = Inr True
           \<and> fst st < Length candidate
           \<and> st' = (Length candidate, Chain candidate))"
proof -
  obtain candidate err where f: "findExternalChain http_Get node = (candidate, err)"
    by (cases "findExternalChain http_Get node")
  obtain n c where st: "st = (n, c)" by (cases st)
  show ?thesis
  proof (cases err)
    case True
    then show ?thesis using assms f by (simp add: body_skip)
  next
    case False
    then show ?thesis using assms f st
      by (auto simp: body_fetched split: sum.splits if_splits)
  qed
qed

lemma loop_result:
  "ResolveConflicts_loop sha256 marshal http_Get ks st = Inr st' \<Longrightarrow>
     st' = st
     \<or> (\<exists>node \<in> set ks. \<exists>candidate. findExternalChain http_Get node = (candidate, False)
           \<and> ValidChain sha256 marshal (Chain candidate) = Inr True
           \<and> fst st < Length candidate
           \<and> st' = (Length candidate, Chain candidate))"
proof (induction ks arbitrary: st)
  case Nil
  then show ?case by simp
next
  case (Cons node rest)
  from Cons.prems obtain st1 where
    b: "ResolveConflicts_body sha256 marshal http_Get node st = Inr st1"
    and l: "ResolveConflicts_loop sha256 marshal http_Get rest st1 = Inr st'"
    by (auto split: sum.splits)
  have mono: "fst st \<le> fst st1" using body_result [OF b] by auto
  from Cons.IH [OF l] show ?case
  proof
    assume "st' = st1"
    then show ?thesis using body_result [OF b] by auto
  next
    assume "\<exists>node \<in> set rest. \<exists>candidate. findExternalChain http_Get node = (candidate, False)
           \<and> ValidChain sha256 marshal (Chain candidate) = Inr True
           \<and> fst st1 < Length candidate
           \<and> st' = (Length candidate, Chain candidate)"
    then show ?thesis using mono by fastforce
  qed
qed

lemma ResolveConflicts_result:
  assumes "ResolveConflicts sha256 marshal http_Get bc = Inr (replaced, bc')"
  shows "\<not> replaced" and "transactions bc' = transactions bc" and "nodes bc' = nodes bc"
    and "chain_blocks bc' = chain_blocks bc
     \<or> (\<exists>node \<in> set (nodes bc). \<exists>candidate. findExternalChain http_Get node = (candidate, False)
           \<and> ValidChain sha256 marshal (Chain candidate) = Inr True
           \<and> int (length (chain_blocks bc)) < Length candidate
           \<and> chain_blocks bc' = Chain candidate)"
proof -
  from assms obtain n c where
    l: "ResolveConflicts_loop sha256 marshal http_Get (nodes bc)
          (int (length (chain_blocks bc)), chain_blocks bc) = Inr (n, c)"
    and r: "replaced = False" and bc': "bc' = bc\<lparr>chain_blocks := c\<rparr>"
    by (auto simp: ResolveConflicts_def Keys_def split: sum.splits prod.splits)
  show "\<not> replaced" using r by simp
  show "transactions bc' = transactions bc" using bc' by simp
  show "nodes bc' = nodes bc" using bc' by simp
  show "chain_blocks bc' = chain_blocks bc
     \<or> (\<exists>node \<in> set (nodes bc). \<exists>candidate. findExternalChain http_Get node = (candidate, False)
           \<and> ValidChain sha256 marshal (Chain candidate) = Inr True
           \<and> int (length (chain_blocks bc)) < Length candidate
           \<and> chain_blocks bc' = Chain candidate)"
    using loop_result [OF l] bc' by auto
qed

lemma ResolveConflicts_nonempty:
  assumes "ResolveConflicts sha256 marshal http_Get bc = Inr (replaced, bc')"
    and "chain_blocks bc \<noteq> []"
  shows "chain_blocks bc' \<noteq> []"
  using ResolveConflicts_result(4) [OF assms(1)] assms(2)
  by (auto dest: ValidChain_Inr_nonempty)

section \<open>Ledger operations: lemmas\<close>

lemma sequential_nth:
  "sequential blocks \<longleftrightarrow> (\<forall>i<length blocks. Index (blocks ! i) = of_nat (i + 1))"
proof
  assume s: "sequential blocks"
  show "\<forall>i<length blocks. Index (blocks ! i) = of_nat (i + 1)"
  proof (intro allI impI)
    fix i assume i: "i < length blocks"
    have "map Index blocks ! i = map (\<lambda>i. of_nat (i + 1)) [0..<length blocks] ! i"
      using s by (simp only: sequential_def)
    then show "Index (blocks ! i) = of_nat (i + 1)" using i by simp
  qed
next
  assume a: "\<forall>i<length blocks. Index (blocks ! i) = of_nat (i + 1)"
  show "sequential blocks"
    unfolding sequential_def by (rule nth_equalityI) (use a in simp_all)
qed

lemma LastBlock_nonempty:
  "chain_blocks bc \<noteq> [] \<Longrightarrow> LastBlock bc = Inr (last (chain_blocks bc))"
  by (simp add: LastBlock_def last_conv_nth)

lemma LastBlock_empty: "chain_blocks bc = [] \<Longrightarrow> LastBlock bc = Inl IndexOutOfRange"
  by (simp add: LastBlock_def)

lemma NewBlock_given:
  "previousHash \<noteq> [] \<Longrightarrow>
     NewBlock sha256 marshal now proof previousHash bc =
       Inr (\<lparr>Index = of_nat (length (chain_blocks bc) + 1), Timestamp = now,
             Transactions = transactions bc, Proof = proof, PreviousHash = previousHash\<rparr>,
            bc\<lparr>transactions := [],
               chain_blocks := chain_blocks bc @
                 [\<lparr>Index = of_nat (length (chain_blocks bc) + 1), Timestamp = now,
                   Transactions = transactions bc, Proof = proof, PreviousHash = previousHash\<rparr>]\<rparr>)"
  by (simp add: NewBlock_def Let_def)

lemma NewBlock_linked:
  "chain_blocks bc \<noteq> [] \<Longrightarrow>
     NewBlock sha256 marshal now proof [] bc =
       Inr (\<lparr>Index = of_nat (length (chain_blocks bc) + 1), Timestamp = now,
             Transactions = transactions bc, Proof = proof,
             PreviousHash = computeHashForBlock sha256 marshal (last (chain_blocks bc))\<rparr>,
            bc\<lparr>transactions := [],
               chain_blocks := chain_blocks bc @
                 [\<lparr>Index = of_nat (length (chain_blocks bc) + 1), Timestamp = now,
                   Transactions = transactions bc, Proof = proof,
                   PreviousHash = computeHashForBlock sha256 marshal (last (chain_blocks bc))\<rparr>]\<rparr>)"
  by (simp add: NewBlock_def Let_def last_conv_nth)

lemma NewBlock_appends:
  assumes "NewBlock sha256 marshal now proof previousHash bc = Inr (b, bc')"
  shows "chain_blocks bc' = chain_blocks bc @ [b]"
    and "Index b = of_nat (length (chain_blocks bc) + 1)"
    and "transactions bc' = []" and "nodes bc' = nodes bc"
    and "Transactions b = transactions bc" and "Proof b = proof" and "Timestamp b = now"
  using assms by (auto simp: NewBlock_def Let_def split: if_splits)

lemma NewTransaction_nonempty:
  "chain_blocks bc \<noteq> [] \<Longrightarrow>
     NewTransaction tx bc =
       Inr (Index (last (chain_blocks bc)) + 1, bc\<lparr>transactions := transactions bc @ [tx]\<rparr>)"
  by (simp add: NewTransaction_def Let_def LastBlock_def last_conv_nth)

lemma NewTransaction_result:
  assumes "NewTransaction tx bc = Inr (i, bc')"
  shows "bc' = bc\<lparr>transactions := transactions bc @ [tx]\<rparr>" and "chain_blocks bc \<noteq> []"
  using assms by (auto simp: NewTransaction_def Let_def LastBlock_def split: if_splits)

lemma RegisterNode_frame:
  assumes "RegisterNode url_Parse address bc = (r, bc')"
  shows "chain_blocks bc' = chain_blocks bc" and "transactions bc' = transactions bc"
  using assms by (auto simp: RegisterNode_def Add_def split: option.splits if_splits)

lemma Mine_fees_nonempty:
  "chain_blocks bc \<noteq> [] \<Longrightarrow>
     Mine_fees nid txs bc =
       Inr (bc\<lparr>transactions := transactions bc @
              map (\<lambda>tx. \<lparr>Sender = Sender tx, Recipient = nid, Amount = Fee tx, Fee = 0\<rparr>) txs\<rparr>)"
  by (induction txs arbitrary: bc) (simp_all add: NewTransaction_nonempty)

lemma Mine_fees_result:
  "Mine_fees nid txs bc = Inr bc' \<Longrightarrow>
     chain_blocks bc' = chain_blocks bc \<and> nodes bc' = nodes bc"
proof (induction txs arbitrary: bc)
  case Nil
  then show ?case by simp
next
  case (Cons tx rest)
  then show ?case
    by (auto split: sum.splits prod.splits dest!: NewTransaction_result(1))
qed

lemma Mine_loop_found:
  assumes "chain_blocks bc \<noteq> []"
    and "ProofOfWork sha256 (Proof (last (chain_blocks bc))) = Some (Inr p)"
    and "p \<noteq> - 1" and "ValidProof sha256 (Proof (last (chain_blocks bc))) p = Inr True"
  shows "Mine_loop sha256 bc = Some (Inr p)"
  using assms by (subst Mine_loop.simps) (simp add: LastBlock_nonempty)

lemma Mine_result:
  assumes "Mine sha256 marshal http_Get now h = Some (Inr (b, h'))"
  shows "\<exists>r bc1. ResolveConflicts sha256 marshal http_Get (blockchain h) = Inr (r, bc1)
           \<and> chain_blocks (blockchain h') = chain_blocks bc1 @ [b]
           \<and> Index b = of_nat (length (chain_blocks bc1) + 1)
           \<and> transactions (blockchain h') = []
           \<and> nodes (blockchain h') = nodes bc1
           \<and> nodeId h' = nodeId h"
proof -
  from assms obtain r bc1 p bc2 i bc3 bc4 where
    rc: "ResolveConflicts sha256 marshal http_Get (blockchain h) = Inr (r, bc1)"
    and fees: "Mine_fees (nodeId h) (transactions bc1) bc1 = Inr bc2"
    and tx: "NewTransaction \<lparr>Sender = ''0'', Recipient = nodeId h, Amount = 1, Fee = 0\<rparr> bc2 = Inr (i, bc3)"
    and nb: "NewBlock sha256 marshal now p [] bc3 = Inr (b, bc4)"
    and h': "h' = h\<lparr>blockchain := bc4\<rparr>"
    by (auto simp: Mine_def Let_def split: sum.splits prod.splits Option.bind_splits)
  have c2: "chain_blocks bc2 = chain_blocks bc1" and n2: "nodes bc2 = nodes bc1"
    using Mine_fees_result [OF fees] by simp_all
  have c3: "chain_blocks bc3 = chain_blocks bc2" "nodes bc3 = nodes bc2"
    using NewTransaction_result(1) [OF tx] by simp_all
  show ?thesis
    using rc NewBlock_appends [OF nb] c2 c3 n2 h' by simp
qed

section \<open>Mining and reachable ledgers: lemmas\<close>

lemma sint_minus_one_int64: "sint (- 1 :: int64) = - 1"
  by simp

lemma Mine_returns:
  assumes dg: "hex_digest sha256"
    and ne: "chain_blocks (blockchain h) \<noteq> []"
    and rc: "ResolveConflicts sha256 marshal http_Get (blockchain h) = Inr (r, bc1)"
    and nonneg: "0 \<le> sint p"
    and valid: "ValidProof sha256 (Proof (last (chain_blocks bc1))) p = Inr True"
  shows "\<exists>q block.
           ProofOfWork sha256 (Proof (last (chain_blocks bc1))) = Some (Inr q)
         \<and> block = \<lparr>Index = of_nat (length (chain_blocks bc1) + 1), Timestamp = now,
                     Transactions = transactions (blockchain h)
                       @ map (\<lambda>tx. \<lparr>Sender = Sender tx, Recipient = nodeId h,
                                     Amount = Fee tx, Fee = 0\<rparr>) (transactions (blockchain h))
                       @ [\<lparr>Sender = ''0'', Recipient = nodeId h, Amount = 1, Fee = 0\<rparr>],
                     Proof = q,
                     PreviousHash = computeHashForBlock sha256 marshal (last (chain_blocks bc1))\<rparr>
         \<and> Mine sha256 marshal http_Get now h =
             Some (Inr (block,
                        h\<lparr>blockchain := bc1\<lparr>transactions := [],
                                               chain_blocks := chain_blocks bc1 @ [block]\<rparr>\<rparr>))"
proof -
  have ne1: "chain_blocks bc1 \<noteq> []" using rc ne by (rule ResolveConflicts_nonempty)
  have tx1: "transactions bc1 = transactions (blockchain h)"
    using ResolveConflicts_result(2) [OF rc] .
  from ProofOfWork_least_aux [OF dg nonneg valid] obtain q where
    pow: "ProofOfWork sha256 (Proof (last (chain_blocks bc1))) = Some (Inr q)"
    and q0: "0 \<le> sint q"
    and qv: "ValidProof sha256 (Proof (last (chain_blocks bc1))) q = Inr True"
    by blast
  have "q \<noteq> - 1" using q0 sint_minus_one_int64 by auto
  then have loop: "Mine_loop sha256 bc1 = Some (Inr q)"
    using ne1 pow qv by (simp add: Mine_loop_found)
  let ?credits = "map (\<lambda>tx. \<lparr>Sender = Sender tx, Recipient = nodeId h,
                               Amount = Fee tx, Fee = 0\<rparr>) (transactions bc1)"
  let ?bc2 = "bc1\<lparr>transactions := transactions bc1 @ ?credits\<rparr>"
  let ?bc3 = "?bc2\<lparr>transactions := transactions ?bc2
                 @ [\<lparr>Sender = ''0'', Recipient = nodeId h, Amount = 1, Fee = 0\<rparr>]\<rparr>"
  have fees: "Mine_fees (nodeId h) (transactions bc1) bc1 = Inr ?bc2"
    using ne1 by (rule Mine_fees_nonempty)
  have ne2: "chain_blocks ?bc2 \<noteq> []" using ne1 by simp
  have sub: "NewTransaction \<lparr>Sender = ''0'', Recipient = nodeId h, Amount = 1, Fee = 0\<rparr> ?bc2
      = Inr (Index (last (chain_blocks ?bc2)) + 1, ?bc3)"
    using ne2 by (rule NewTransaction_nonempty)
  have ne3: "chain_blocks ?bc3 \<noteq> []" using ne1 by simp
  note nb = NewBlock_linked [OF ne3, of sha256 marshal now q]
  show ?thesis
    unfolding Mine_def using rc loop fees sub nb tx1 pow by (simp add: Let_def)
qed

lemma NewBlockchain_eq:
  "NewBlockchain sha256 marshal now =
     Inr \<lparr>chain_blocks = [\<lparr>Index = 1, Timestamp = now, Transactions = [], Proof = 100,
                             PreviousHash = ''1''\<rparr>],
          transactions = [], nodes = NewStringSet\<rparr>"
  by (simp add: NewBlockchain_def NewBlock_given)

lemma reachable_nonempty:
  "reachable sha256 marshal url_Parse peers bc \<Longrightarrow> chain_blocks bc \<noteq> []"
proof (induction rule: reachable.induct)
  case (r_init now bc)
  then show ?case by (auto simp: NewBlockchain_eq)
next
  case (r_block bc now "proof" previousHash b bc')
  then show ?case using NewBlock_appends(1) by fastforce
next
  case (r_transaction bc tx i bc')
  then show ?case using NewTransaction_result(1) by fastforce
next
  case (r_register bc address r bc')
  then show ?case using RegisterNode_frame(1) by fastforce
next
  case (r_resolve bc http_Get r bc')
  then show ?case using ResolveConflicts_nonempty by blast
next
  case (r_mine bc http_Get now nid b h')
  from Mine_result [OF r_mine.hyps(3)] show ?case by auto
qed

lemma sequential_append:
  "sequential blocks \<Longrightarrow> Index b = of_nat (length blocks + 1) \<Longrightarrow> sequential (blocks @ [b])"
  by (simp add: sequential_def)

lemma ResolveConflicts_sequential:
  assumes rc: "ResolveConflicts sha256 marshal http_Get bc = Inr (r, bc')"
    and np: "numbered_peers http_Get" and sq: "sequential (chain_blocks bc)"
  shows "sequential (chain_blocks bc')"
  using ResolveConflicts_result(4) [OF rc]
proof
  assume "chain_blocks bc' = chain_blocks bc"
  then show ?thesis using sq by simp
next
  assume "\<exists>node \<in> set (nodes bc). \<exists>candidate. findExternalChain http_Get node = (candidate, False)
           \<and> ValidChain sha256 marshal (Chain candidate) = Inr True
           \<and> int (length (chain_blocks bc)) < Length candidate
           \<and> chain_blocks bc' = Chain candidate"
  then obtain node candidate where
    f: "findExternalChain http_Get node = (candidate, False)"
    and v: "ValidChain sha256 marshal (Chain candidate) = Inr True"
    and c: "chain_blocks bc' = Chain candidate"
    by blast
  have ne: "Chain candidate \<noteq> []" using v by (rule ValidChain_Inr_nonempty)
  from findExternalChain_cases [OF f] ne
  have "http_Get (''http://'' @ node @ ''/chain'') = Response 200 (Some candidate)"
    by auto
  then have "sequential (Chain candidate)" using np by (simp add: numbered_peers_def)
  then show ?thesis using c by simp
qed

lemma reachable_sequential:
  "reachable sha256 marshal url_Parse numbered_peers bc \<Longrightarrow> sequential (chain_blocks bc)"
proof (induction rule: reachable.induct)
  case (r_init now bc)
  then show ?case by (auto simp: NewBlockchain_eq sequential_def)
next
  case (r_block bc now "proof" previousHash b bc')
  then show ?case
    using NewBlock_appends(1,2) [OF r_block.hyps(2)] by (simp add: sequential_append)
next
  case (r_transaction bc tx i bc')
  then show ?case using NewTransaction_result(1) [OF r_transaction.hyps(2)] by simp
next
  case (r_register bc address r bc')
  then show ?case using RegisterNode_frame(1) [OF r_register.hyps(2)] by simp
next
  case (r_resolve bc http_Get r bc')
  then show ?case using ResolveConflicts_sequential by blast
next
  case (r_mine bc http_Get now nid b h')
  from Mine_result [OF r_mine.hyps(3)] obtain r bc1 where
    rc: "ResolveConflicts sha256 marshal http_Get bc = Inr (r, bc1)"
    and c: "chain_blocks (blockchain h') = chain_blocks bc1 @ [b]"
    and i: "Index b = of_nat (length (chain_blocks bc1) + 1)"
    by auto
  have "sequential (chain_blocks bc1)"
    using ResolveConflicts_sequential [OF rc r_mine.hyps(2) r_mine.IH] .
  then show ?case using c i by (simp add: sequential_append)
qed


section \<open>Example instances: lemmas\<close>

lemma hex_digest_stub: "hex_digest sha256_stub"
  by (simp add: hex_digest_def sha256_stub_def)

lemma genesis_hash_stub:
  "computeHashForBlock sha256_stub marshal_stub genesis_block = PreviousHash second_block"
  by code_simp

lemma ValidChain_longer_stub:
  "ValidChain sha256_stub marshal_stub [genesis_block, second_block] = Inr True"
  by code_simp

lemma findExternalChain_longer:
  "findExternalChain http_Get_longer ''a'' = (\<lparr>Length = 2, Chain = [genesis_block, second_block]\<rparr>, False)"
  by (simp add: findExternalChain_def http_Get_longer_def)

lemma findExternalChain_empty_stub:
  "findExternalChain http_Get_empty ''a'' = (\<lparr>Length = 0, Chain = []\<rparr>, False)"
  by (simp add: findExternalChain_def http_Get_empty_def)

lemma NewBlockchain_stub: "NewBlockchain sha256_stub marshal_stub 0 = Inr genesis_ledger"
  by (simp add: NewBlockchain_eq genesis_ledger_def genesis_block_def NewStringSet_def)

lemma RegisterNode_stub: "RegisterNode url_Parse_stub ''http://a'' genesis_ledger = (True, ledger_a)"
  by (simp add: RegisterNode_def url_Parse_stub_def Add_def genesis_ledger_def ledger_a_def)

lemma reachable_ledger_a:
  "reachable sha256_stub marshal_stub url_Parse_stub peers ledger_a"
  by (rule r_register [OF r_init [OF NewBlockchain_stub] RegisterNode_stub])

lemma numbered_peers_longer: "numbered_peers http_Get_longer"
  by (auto simp: numbered_peers_def http_Get_longer_def sequential_def genesis_block_def
      second_block_def split: if_splits)

lemma ResolveConflicts_longer_stub:
  "ResolveConflicts sha256_stub marshal_stub http_Get_longer ledger_a
       = Inr (False, ledger_a\<lparr>chain_blocks := [genesis_block, second_block]\<rparr>)"
  by code_simp

lemma ResolveConflicts_misnumbered_stub:
  "ResolveConflicts sha256_stub marshal_stub http_Get_misnumbered ledger_a
       = Inr (False, ledger_a\<lparr>chain_blocks := [genesis_block, misnumbered_block]\<rparr>)"
  by code_simp

lemma ResolveConflicts_down_stub:
  "ResolveConflicts sha256_stub marshal_stub http_Get_down ledger_fee5 = Inr (False, ledger_fee5)"
  by code_simp


section \<open>The claims\<close>

text \<open>
  C1. \<^verbatim>\<open>ResolveConflicts\<close> is to report whether the chain was replaced. On the fresh
  ledger with the one peer \<^verbatim>\<open>a\<close>, which serves a valid chain of reported length 2, the
  chain of the ledger is replaced by the peer's and the result is nevertheless false:
  the variable \<^verbatim>\<open>authority\<close> is set to true and never changed.
\<close>

theorem ResolveConflicts_replaced_reports_false:
  "chain_blocks ledger_a = [genesis_block]
   \<and> ResolveConflicts sha256_stub marshal_stub http_Get_longer ledger_a
       = Inr (False, ledger_a\<lparr>chain_blocks := [genesis_block, second_block]\<rparr>)"
  by code_simp

text \<open>
  C2, as amended. The fee of a transaction is a signed 64-bit integer and nothing checks
  its sign. When the hash yields hex digests, the chain is not empty, conflict
  resolution returns, some non-negative proof is valid against the last block, and the
  pool holds exactly one transaction, of fee 5, then \<^verbatim>\<open>Mine\<close> returns a block with
  exactly three transactions: that one, a credit to the node of amount 5 and fee 0 from
  the same sender, and the subsidy from sender \<^verbatim>\<open>0\<close> to the node of amount 1 and fee 0.
\<close>

theorem Mine_fee_reward:
  assumes "hex_digest sha256"
    and "chain_blocks (blockchain h) \<noteq> []"
    and "ResolveConflicts sha256 marshal http_Get (blockchain h) = Inr (r, bc1)"
    and "0 \<le> sint p"
    and "ValidProof sha256 (Proof (last (chain_blocks bc1))) p = Inr True"
    and "transactions (blockchain h) = [tx]"
    and "Fee tx = 5"
  shows "\<exists>block h'. Mine sha256 marshal http_Get now h = Some (Inr (block, h'))
           \<and> Transactions block =
               [tx,
                \<lparr>Sender = Sender tx, Recipient = nodeId h, Amount = 5, Fee = 0\<rparr>,
                \<lparr>Sender = ''0'', Recipient = nodeId h, Amount = 1, Fee = 0\<rparr>]
           \<and> length (Transactions block) = 3
           \<and> last (chain_blocks (blockchain h')) = block"
proof -
  from Mine_returns [OF assms(1-5), of now] obtain q block where
    b: "block = \<lparr>Index = of_nat (length (chain_blocks bc1) + 1), Timestamp = now,
                     Transactions = transactions (blockchain h)
                       @ map (\<lambda>tx. \<lparr>Sender = Sender tx, Recipient = nodeId h,
                                     Amount = Fee tx, Fee = 0\<rparr>) (transactions (blockchain h))
                       @ [\<lparr>Sender = ''0'', Recipient = nodeId h, Amount = 1, Fee = 0\<rparr>],
                     Proof = q,
                     PreviousHash = computeHashForBlock sha256 marshal (last (chain_blocks bc1))\<rparr>"
    and m: "Mine sha256 marshal http_Get now h =
             Some (Inr (block,
                        h\<lparr>blockchain := bc1\<lparr>transactions := [],
                                               chain_blocks := chain_blocks bc1 @ [block]\<rparr>\<rparr>))"
    by blast
  have "Transactions block =
               [tx,
                \<lparr>Sender = Sender tx, Recipient = nodeId h, Amount = 5, Fee = 0\<rparr>,
                \<lparr>Sender = ''0'', Recipient = nodeId h, Amount = 1, Fee = 0\<rparr>]"
    using b assms(6,7) by simp
  then show ?thesis using m by simp
qed

theorem Mine_fee_reward_witness:
  "hex_digest sha256_stub
   \<and> chain_blocks (blockchain miner) \<noteq> []
   \<and> ResolveConflicts sha256_stub marshal_stub http_Get_down (blockchain miner)
        = Inr (False, ledger_fee5)
   \<and> 0 \<le> sint (7 :: int64)
   \<and> ValidProof sha256_stub (Proof (last (chain_blocks ledger_fee5))) 7 = Inr True
   \<and> transactions (blockchain miner) = [tx_fee5]
   \<and> Fee tx_fee5 = 5
   \<and> (\<exists>block h'. Mine sha256_stub marshal_stub http_Get_down 1 miner = Some (Inr (block, h'))
         \<and> Transactions block =
             [tx_fee5,
              \<lparr>Sender = ''alice'', Recipient = ''n1'', Amount = 5, Fee = 0\<rparr>,
              \<lparr>Sender = ''0'', Recipient = ''n1'', Amount = 1, Fee = 0\<rparr>])"
proof -
  have h1: "hex_digest sha256_stub" by (rule hex_digest_stub)
  have h2: "chain_blocks (blockchain miner) \<noteq> []" by (simp add: miner_def ledger_fee5_def)
  have h3: "ResolveConflicts sha256_stub marshal_stub http_Get_down (blockchain miner)
        = Inr (False, ledger_fee5)"
    using ResolveConflicts_down_stub by (simp add: miner_def)
  have h4: "0 \<le> sint (7 :: int64)" by simp
  have h5: "ValidProof sha256_stub (Proof (last (chain_blocks ledger_fee5))) 7 = Inr True"
    by code_simp
  have h6: "transactions (blockchain miner) = [tx_fee5]" by (simp add: miner_def ledger_fee5_def)
  have h7: "Fee tx_fee5 = 5" by (simp add: tx_fee5_def)
  have s: "Sender tx_fee5 = ''alice''" "nodeId miner = ''n1''"
    by (simp_all add: tx_fee5_def miner_def)
  from Mine_fee_reward [OF h1 h2 h3 h4 h5 h6 h7, of 1]
  have "\<exists>block h'. Mine sha256_stub marshal_stub http_Get_down 1 miner = Some (Inr (block, h'))
         \<and> Transactions block =
             [tx_fee5,
              \<lparr>Sender = ''alice'', Recipient = ''n1'', Amount = 5, Fee = 0\<rparr>,
              \<lparr>Sender = ''0'', Recipient = ''n1'', Amount = 1, Fee = 0\<rparr>]"
    unfolding s by blast
  then show ?thesis using h1 h2 h3 h4 h5 h6 h7 by simp
qed

text \<open>
  C2 as stated fails: a transaction whose fee is \<open>-5\<close> is accepted into the pool, and
  mining with it in the pool credits the node with the amount \<open>-5\<close>.
\<close>

theorem negative_fee_counterexample:
  "NewTransaction tx_negative_fee genesis_ledger
     = Inr (2, genesis_ledger\<lparr>transactions := [tx_negative_fee]\<rparr>)
   \<and> sint (Fee tx_negative_fee) = - 5
   \<and> Mine sha256_stub marshal_stub http_Get_down 1
        \<lparr>blockchain = genesis_ledger\<lparr>transactions := [tx_negative_fee]\<rparr>, nodeId = ''n1''\<rparr>
       = Some (Inr
          (\<lparr>Index = 2, Timestamp = 1,
             Transactions =
               [tx_negative_fee,
                \<lparr>Sender = ''alice'', Recipient = ''n1'', Amount = - 5, Fee = 0\<rparr>,
                \<lparr>Sender = ''0'', Recipient = ''n1'', Amount = 1, Fee = 0\<rparr>],
             Proof = 7, PreviousHash = PreviousHash second_block\<rparr>,
           \<lparr>blockchain =
              \<lparr>chain_blocks =
                 [genesis_block,
                  \<lparr>Index = 2, Timestamp = 1,
                    Transactions =
                      [tx_negative_fee,
                       \<lparr>Sender = ''alice'', Recipient = ''n1'', Amount = - 5, Fee = 0\<rparr>,
                       \<lparr>Sender = ''0'', Recipient = ''n1'', Amount = 1, Fee = 0\<rparr>],
                    Proof = 7, PreviousHash = PreviousHash second_block\<rparr>],
               transactions = [], nodes = []\<rparr>,
            nodeId = ''n1''\<rparr>))"
  by code_simp

text \<open>
  C3. In the loop of \<^verbatim>\<open>ResolveConflicts\<close>, a candidate that was fetched without error
  and has a non-empty chain replaces the current best exactly when \<^verbatim>\<open>ValidChain\<close>
  accepts its chain and the length it reports is strictly greater than the current best
  length; a candidate whose reported length is equal or smaller never does. A candidate
  whose chain is empty replaces nothing either: the validator panics on it.
\<close>

theorem ResolveConflicts_body_adopts:
  assumes "hex_digest sha256"
    and "findExternalChain http_Get node = (candidate, False)"
  shows "(Chain candidate \<noteq> [] \<longrightarrow>
            ResolveConflicts_body sha256 marshal http_Get node (bestLength, best) =
              Inr (if ValidChain sha256 marshal (Chain candidate) = Inr True
                      \<and> bestLength < Length candidate
                   then (Length candidate, Chain candidate) else (bestLength, best)))
     \<and> (Chain candidate \<noteq> [] \<and> Length candidate \<le> bestLength \<longrightarrow>
            ResolveConflicts_body sha256 marshal http_Get node (bestLength, best)
              = Inr (bestLength, best))
     \<and> (Chain candidate = [] \<longrightarrow>
            ResolveConflicts_body sha256 marshal http_Get node (bestLength, best)
              = Inl IndexOutOfRange)"
proof (intro conjI impI)
  assume ne: "Chain candidate \<noteq> []"
  then obtain v where v: "ValidChain sha256 marshal (Chain candidate) = Inr v"
    using ValidChain_eq [OF assms(1)] by blast
  show "ResolveConflicts_body sha256 marshal http_Get node (bestLength, best) =
              Inr (if ValidChain sha256 marshal (Chain candidate) = Inr True
                      \<and> bestLength < Length candidate
                   then (Length candidate, Chain candidate) else (bestLength, best))"
    using assms(2) v by (simp add: body_fetched)
next
  assume a: "Chain candidate \<noteq> [] \<and> Length candidate \<le> bestLength"
  then obtain v where v: "ValidChain sha256 marshal (Chain candidate) = Inr v"
    using ValidChain_eq [OF assms(1)] by blast
  show "ResolveConflicts_body sha256 marshal http_Get node (bestLength, best)
              = Inr (bestLength, best)"
    using assms(2) v a by (simp add: body_fetched)
next
  assume "Chain candidate = []"
  then show "ResolveConflicts_body sha256 marshal http_Get node (bestLength, best)
              = Inl IndexOutOfRange"
    using assms(2) by (simp add: body_fetched ValidChain_empty)
qed

theorem ResolveConflicts_body_adopts_witness:
  "hex_digest sha256_stub
   \<and> findExternalChain http_Get_longer ''a''
        = (\<lparr>Length = 2, Chain = [genesis_block, second_block]\<rparr>, False)
   \<and> ResolveConflicts_body sha256_stub marshal_stub http_Get_longer ''a'' (1, [genesis_block])
        = Inr (2, [genesis_block, second_block])
   \<and> ResolveConflicts_body sha256_stub marshal_stub http_Get_longer ''a''
          (2, [genesis_block, genesis_block])
        = Inr (2, [genesis_block, genesis_block])
   \<and> findExternalChain http_Get_empty ''a'' = (\<lparr>Length = 0, Chain = []\<rparr>, False)
   \<and> ResolveConflicts_body sha256_stub marshal_stub http_Get_empty ''a'' (1, [genesis_block])
        = Inl IndexOutOfRange"
proof -
  note t = ResolveConflicts_body_adopts [OF hex_digest_stub findExternalChain_longer,
      of marshal_stub]
  have "ResolveConflicts_body sha256_stub marshal_stub http_Get_longer ''a'' (1, [genesis_block])
        = Inr (2, [genesis_block, second_block])"
    using t [of 1 "[genesis_block]", THEN conjunct1] ValidChain_longer_stub by simp
  moreover have "ResolveConflicts_body sha256_stub marshal_stub http_Get_longer ''a''
          (2, [genesis_block, genesis_block]) = Inr (2, [genesis_block, genesis_block])"
    using t [of 2 "[genesis_block, genesis_block]", THEN conjunct2, THEN conjunct1] by simp
  moreover have "ResolveConflicts_body sha256_stub marshal_stub http_Get_empty ''a''
          (1, [genesis_block]) = Inl IndexOutOfRange"
    using ResolveConflicts_body_adopts [OF hex_digest_stub findExternalChain_empty_stub,
        of marshal_stub 1 "[genesis_block]", THEN conjunct2, THEN conjunct2]
    by simp
  ultimately show ?thesis
    using hex_digest_stub findExternalChain_longer findExternalChain_empty_stub by simp
qed

text \<open>
  C4. An empty chain from a peer is not skipped: a reply with a status other than 200
  leaves \<^verbatim>\<open>findExternalChain\<close> returning the zero \<^verbatim>\<open>blockchainInfo\<close> with a \<^verbatim>\<open>nil\<close>
  error, and a reply with an empty chain is taken as it is; either way \<^verbatim>\<open>ValidChain\<close>
  is called on the empty slice and reads its element 0, which panics.
\<close>

theorem ResolveConflicts_panics_on_empty_chain:
  "ResolveConflicts sha256_stub marshal_stub http_Get_404 ledger_a = Inl IndexOutOfRange
   \<and> ResolveConflicts sha256_stub marshal_stub http_Get_empty ledger_a = Inl IndexOutOfRange
   \<and> findExternalChain http_Get_404 ''a'' = (\<lparr>Length = 0, Chain = []\<rparr>, False)
   \<and> ValidChain sha256_stub marshal_stub [] = Inl IndexOutOfRange"
  by code_simp

text \<open>
  C5. For a chain of at least one block and a hash that yields hex digests,
  \<^verbatim>\<open>ValidChain\<close> returns true exactly when every block after the first stores the hash
  of the block before it and carries a proof that is valid against that block's proof.
  It returns true for every chain of one block, and once a pair of neighbours fails,
  the answer is false whatever blocks follow that pair.
\<close>

theorem ValidChain_iff_links:
  assumes "hex_digest sha256" and "1 \<le> length blocks"
  shows "ValidChain sha256 marshal blocks =
           Inr (\<forall>i. i + 1 < length blocks \<longrightarrow>
                  PreviousHash (blocks ! (i + 1)) = computeHashForBlock sha256 marshal (blocks ! i)
                  \<and> ValidProof sha256 (Proof (blocks ! i)) (Proof (blocks ! (i + 1))) = Inr True)
     \<and> (length blocks = 1 \<longrightarrow> ValidChain sha256 marshal blocks = Inr True)
     \<and> (\<forall>k later. k + 1 < length blocks
           \<and> \<not> (PreviousHash (blocks ! (k + 1)) = computeHashForBlock sha256 marshal (blocks ! k)
                \<and> ValidProof sha256 (Proof (blocks ! k)) (Proof (blocks ! (k + 1))) = Inr True)
           \<longrightarrow> ValidChain sha256 marshal (take (k + 2) blocks @ later) = Inr False)"
proof -
  have ne: "blocks \<noteq> []" using assms(2) by auto
  have all: "ValidChain sha256 marshal blocks =
           Inr (\<forall>i. i + 1 < length blocks \<longrightarrow>
                  PreviousHash (blocks ! (i + 1)) = computeHashForBlock sha256 marshal (blocks ! i)
                  \<and> ValidProof sha256 (Proof (blocks ! i)) (Proof (blocks ! (i + 1))) = Inr True)"
    using ValidChain_eq [OF assms(1) ne, of marshal] by (simp only: link_ok_def)
  have one: "length blocks = 1 \<longrightarrow> ValidChain sha256 marshal blocks = Inr True"
  proof
    assume "length blocks = 1"
    then obtain b where "blocks = [b]" by (cases blocks) auto
    then show "ValidChain sha256 marshal blocks = Inr True" by (simp add: ValidChain_single)
  qed
  have first: "\<forall>k later. k + 1 < length blocks
           \<and> \<not> (PreviousHash (blocks ! (k + 1)) = computeHashForBlock sha256 marshal (blocks ! k)
                \<and> ValidProof sha256 (Proof (blocks ! k)) (Proof (blocks ! (k + 1))) = Inr True)
           \<longrightarrow> ValidChain sha256 marshal (take (k + 2) blocks @ later) = Inr False"
  proof (intro allI impI)
    fix k later
    assume a: "k + 1 < length blocks
           \<and> \<not> (PreviousHash (blocks ! (k + 1)) = computeHashForBlock sha256 marshal (blocks ! k)
                \<and> ValidProof sha256 (Proof (blocks ! k)) (Proof (blocks ! (k + 1))) = Inr True)"
    let ?xs = "take (k + 2) blocks @ later"
    have len: "k + 1 < length ?xs" using a by simp
    have n0: "?xs ! k = blocks ! k" and n1: "?xs ! (k + 1) = blocks ! (k + 1)"
      using a by (simp_all add: nth_append)
    have "?xs \<noteq> []" using len by auto
    then have "ValidChain sha256 marshal ?xs =
        Inr (\<forall>i. i + 1 < length ?xs \<longrightarrow> link_ok sha256 marshal (?xs ! i) (?xs ! (i + 1)))"
      by (rule ValidChain_eq [OF assms(1)])
    moreover have "\<not> link_ok sha256 marshal (?xs ! k) (?xs ! (k + 1))"
      using a unfolding n0 n1 link_ok_def by simp
    ultimately show "ValidChain sha256 marshal ?xs = Inr False"
      using len by auto
  qed
  from all one first show ?thesis by (intro conjI)
qed

theorem ValidChain_iff_links_witness:
  "hex_digest sha256_stub \<and> 1 \<le> length [genesis_block, second_block]
   \<and> ValidChain sha256_stub marshal_stub [genesis_block, second_block] = Inr True
   \<and> ValidChain sha256_stub marshal_stub [genesis_block, genesis_block, second_block] = Inr False"
proof -
  have h: "hex_digest sha256_stub" by (simp add: hex_digest_def sha256_stub_def)
  have l: "1 \<le> length [genesis_block, second_block]" by simp
  have p: "ValidProof sha256_stub (Proof genesis_block) (Proof second_block) = Inr True"
    by code_simp
  have t: "ValidChain sha256_stub marshal_stub [genesis_block, second_block] = Inr True"
    using ValidChain_iff_links [OF h l, of marshal_stub, THEN conjunct1] genesis_hash_stub p
    by (simp add: less_Suc_eq)
  have l3: "1 \<le> length [genesis_block, genesis_block, second_block]" by simp
  have bad: "PreviousHash genesis_block \<noteq> computeHashForBlock sha256_stub marshal_stub genesis_block"
    by code_simp
  have f: "ValidChain sha256_stub marshal_stub [genesis_block, genesis_block, second_block] = Inr False"
    using ValidChain_iff_links [OF h l3, of marshal_stub, THEN conjunct2, THEN conjunct2,
        THEN spec, THEN spec, of 0 "[second_block]"] bad
    by simp
  show ?thesis using h l t f by simp
qed

text \<open>
  C6. Whenever some non-negative \<^verbatim>\<open>int64\<close> proof satisfies \<^verbatim>\<open>ValidProof\<close> for
  \<open>lastProof\<close>, \<^verbatim>\<open>ProofOfWork\<close> returns, and what it returns is the least non-negative
  proof that satisfies it; \<^verbatim>\<open>ValidProof\<close> holds exactly when the first four characters
  of the digest of the two decimal renderings, one after the other, are \<^verbatim>\<open>0000\<close>.
  \<^verbatim>\<open>ProofOfWork\<close> is a function of \<open>lastProof\<close>, so two calls agree.
\<close>

theorem ProofOfWork_least:
  assumes "hex_digest sha256"
    and "0 \<le> sint p"
    and "ValidProof sha256 lastProof p = Inr True"
  shows "\<exists>r. ProofOfWork sha256 lastProof = Some (Inr r)
           \<and> 0 \<le> sint r
           \<and> ValidProof sha256 lastProof r = Inr True
           \<and> (\<forall>q. 0 \<le> sint q \<and> sint q < sint r \<longrightarrow> ValidProof sha256 lastProof q = Inr False)
           \<and> (\<forall>x. ValidProof sha256 lastProof x
                  = Inr (take 4 (sha256 (decimal lastProof @ decimal x)) = ''0000''))"
proof -
  from ProofOfWork_least_aux [OF assms] obtain r where
    r: "ProofOfWork sha256 lastProof = Some (Inr r)" "0 \<le> sint r"
       "ValidProof sha256 lastProof r = Inr True"
       "\<forall>q. 0 \<le> sint q \<and> sint q < sint r \<longrightarrow> ValidProof sha256 lastProof q = Inr False"
    by blast
  have "\<forall>x. ValidProof sha256 lastProof x
           = Inr (take 4 (sha256 (decimal lastProof @ decimal x)) = ''0000'')"
    using assms(1) by (simp add: ValidProof_digest)
  with r show ?thesis by blast
qed

theorem ProofOfWork_least_witness:
  "hex_digest sha256_stub \<and> 0 \<le> sint (7 :: int64) \<and> ValidProof sha256_stub 100 7 = Inr True
   \<and> ProofOfWork sha256_stub 100 = Some (Inr 7)
   \<and> ValidProof sha256_stub 100 6 = Inr False"
proof -
  have h: "hex_digest sha256_stub" by (rule hex_digest_stub)
  have n: "0 \<le> sint (7 :: int64)" by simp
  have v: "ValidProof sha256_stub 100 7 = Inr True" by code_simp
  from ProofOfWork_least [OF h n v] obtain r where
    r: "ProofOfWork sha256_stub 100 = Some (Inr r)"
    and least: "\<forall>q. 0 \<le> sint q \<and> sint q < sint r \<longrightarrow> ValidProof sha256_stub 100 q = Inr False"
    by blast
  have run: "ProofOfWork sha256_stub 100 = Some (Inr 7)" by code_simp
  with r have "r = 7" by simp
  with least have "ValidProof sha256_stub 100 6 = Inr False" by simp
  with h n v run show ?thesis by simp
qed

text \<open>
  C7. \<^verbatim>\<open>NewBlock(proof, "")\<close> on a ledger whose chain is not empty returns; afterwards
  the chain is one block longer, the pool is empty, the new block is the last one and
  stores the hash of the block that was last before, and the blocks that were there
  before are unchanged.
\<close>

theorem NewBlock_growth:
  assumes "chain_blocks bc \<noteq> []"
  shows "\<exists>b bc'. NewBlock sha256 marshal now proof [] bc = Inr (b, bc')
           \<and> length (chain_blocks bc') = length (chain_blocks bc) + 1
           \<and> transactions bc' = []
           \<and> PreviousHash b = computeHashForBlock sha256 marshal (last (chain_blocks bc))
           \<and> last (chain_blocks bc') = b
           \<and> take (length (chain_blocks bc)) (chain_blocks bc') = chain_blocks bc
           \<and> nodes bc' = nodes bc"
  using assms by (simp add: NewBlock_linked)

theorem NewBlock_growth_witness:
  "chain_blocks ledger_a \<noteq> []
   \<and> (\<exists>b bc'. NewBlock sha256_stub marshal_stub 1 7 [] ledger_a = Inr (b, bc')
         \<and> length (chain_blocks bc') = 2
         \<and> transactions bc' = []
         \<and> PreviousHash b = PreviousHash second_block
         \<and> take 1 (chain_blocks bc') = [genesis_block])"
proof -
  have ne: "chain_blocks ledger_a \<noteq> []" by (simp add: ledger_a_def)
  have h: "computeHashForBlock sha256_stub marshal_stub genesis_block = PreviousHash second_block"
    by code_simp
  have g: "last (chain_blocks ledger_a) = genesis_block" "length (chain_blocks ledger_a) = 1"
    "chain_blocks ledger_a = [genesis_block]"
    by (simp_all add: ledger_a_def)
  from NewBlock_growth [OF ne, of sha256_stub marshal_stub 1 7] obtain b bc' where
    nb: "NewBlock sha256_stub marshal_stub 1 7 [] ledger_a = Inr (b, bc')"
    and l: "length (chain_blocks bc') = length (chain_blocks ledger_a) + 1"
    and t: "transactions bc' = []"
    and p: "PreviousHash b = computeHashForBlock sha256_stub marshal_stub (last (chain_blocks ledger_a))"
    and k: "take (length (chain_blocks ledger_a)) (chain_blocks bc') = chain_blocks ledger_a"
    by blast
  have "NewBlock sha256_stub marshal_stub 1 7 [] ledger_a = Inr (b, bc')
         \<and> length (chain_blocks bc') = 2
         \<and> transactions bc' = []
         \<and> PreviousHash b = PreviousHash second_block
         \<and> take 1 (chain_blocks bc') = [genesis_block]"
    using nb l t p k h by (simp add: g)
  then show ?thesis using ne by blast
qed

text \<open>
  C8, as amended. \<^verbatim>\<open>RegisterNode\<close> returns true exactly when the set of peers has a new
  member, which is the host that \<^verbatim>\<open>url.Parse\<close> finds in the address, empty or not; it
  returns false, and leaves the ledger as it was, for an address that \<^verbatim>\<open>url.Parse\<close>
  rejects and for one whose host is already a member. The host is never tested: an
  address that parses with an empty host adds the empty host when it is new. The
  function has no failing branch, and never touches the chain or the pool.
\<close>

theorem RegisterNode_inserts:
  assumes "RegisterNode url_Parse address bc = (r, bc')"
  shows "(r \<longleftrightarrow> set (Keys (nodes bc')) \<noteq> set (Keys (nodes bc)))
     \<and> (r \<longleftrightarrow> (\<exists>u. url_Parse address = Some u \<and> Host u \<notin> set (Keys (nodes bc))))
     \<and> (\<forall>u. url_Parse address = Some u \<longrightarrow>
           set (Keys (nodes bc')) = insert (Host u) (set (Keys (nodes bc))))
     \<and> (\<forall>u. url_Parse address = Some u \<and> Host u \<in> set (Keys (nodes bc)) \<longrightarrow> \<not> r \<and> bc' = bc)
     \<and> (url_Parse address = None \<longrightarrow> \<not> r \<and> bc' = bc)
     \<and> (\<forall>u. url_Parse address = Some u \<and> Host u = [] \<and> [] \<notin> set (Keys (nodes bc)) \<longrightarrow>
           r \<and> [] \<in> set (Keys (nodes bc')))
     \<and> chain_blocks bc' = chain_blocks bc \<and> transactions bc' = transactions bc"
  using assms
  by (cases "url_Parse address") (auto simp: RegisterNode_def Add_def Keys_def split: if_splits)

theorem RegisterNode_inserts_witness:
  "RegisterNode url_Parse_stub ''http://a'' genesis_ledger = (True, ledger_a)
   \<and> set (Keys (nodes ledger_a)) \<noteq> set (Keys (nodes genesis_ledger))
   \<and> RegisterNode url_Parse_stub ''http://a'' ledger_a = (False, ledger_a)
   \<and> url_Parse_stub ''%zz'' = None
   \<and> RegisterNode url_Parse_stub ''%zz'' ledger_a = (False, ledger_a)
   \<and> url_Parse_stub ''localhost:5000'' = Some \<lparr>Host = ''''\<rparr>
   \<and> RegisterNode url_Parse_stub ''localhost:5000'' ledger_a
        = (True, ledger_a\<lparr>nodes := [''a'', '''']\<rparr>)
   \<and> '''' \<in> set (Keys (nodes (ledger_a\<lparr>nodes := [''a'', '''']\<rparr>)))"
proof -
  have a: "RegisterNode url_Parse_stub ''http://a'' genesis_ledger = (True, ledger_a)"
    by (simp add: RegisterNode_def url_Parse_stub_def Add_def genesis_ledger_def ledger_a_def)
  have b: "RegisterNode url_Parse_stub ''http://a'' ledger_a = (False, ledger_a)"
    by (simp add: RegisterNode_def url_Parse_stub_def Add_def ledger_a_def)
  have z: "url_Parse_stub ''%zz'' = None" by (simp add: url_Parse_stub_def)
  have e: "url_Parse_stub ''localhost:5000'' = Some \<lparr>Host = ''''\<rparr>"
    by (simp add: url_Parse_stub_def)
  have n: "'''' \<notin> set (Keys (nodes ledger_a))" by (simp add: Keys_def ledger_a_def)
  have d: "RegisterNode url_Parse_stub ''localhost:5000'' ledger_a
        = (True, ledger_a\<lparr>nodes := [''a'', '''']\<rparr>)"
    by (simp add: RegisterNode_def url_Parse_stub_def Add_def ledger_a_def)
  obtain r bc' where c: "RegisterNode url_Parse_stub ''%zz'' ledger_a = (r, bc')"
    by (cases "RegisterNode url_Parse_stub ''%zz'' ledger_a")
  have "\<not> r \<and> bc' = ledger_a"
    using RegisterNode_inserts [OF c] z by simp
  moreover have "set (Keys (nodes ledger_a)) \<noteq> set (Keys (nodes genesis_ledger))"
    using RegisterNode_inserts [OF a] by simp
  moreover have "'''' \<in> set (Keys (nodes (ledger_a\<lparr>nodes := [''a'', '''']\<rparr>)))"
    using RegisterNode_inserts [OF d] e n by simp
  ultimately show ?thesis using a b z c d e by simp
qed

text \<open>
  C8 as stated fails: the address \<^verbatim>\<open>localhost:5000\<close> has no scheme separator and no
  host, yet \<^verbatim>\<open>url.Parse\<close> returns no error for it, so \<^verbatim>\<open>RegisterNode\<close> returns true and
  the empty string becomes a member of the set of peers.
\<close>

theorem RegisterNode_hostless_counterexample:
  "url_Parse_stub ''localhost:5000'' = Some \<lparr>Host = ''''\<rparr>
   \<and> Keys (nodes genesis_ledger) = []
   \<and> RegisterNode url_Parse_stub ''localhost:5000'' genesis_ledger
        = (True, genesis_ledger\<lparr>nodes := ['''']\<rparr>)
   \<and> Keys (nodes (genesis_ledger\<lparr>nodes := ['''']\<rparr>)) = ['''']"
  by (simp add: RegisterNode_def url_Parse_stub_def Add_def Keys_def genesis_ledger_def)

text \<open>
  C9, as amended. In every ledger reachable from \<^verbatim>\<open>NewBlockchain\<close> by \<^verbatim>\<open>NewBlock\<close>,
  \<^verbatim>\<open>Mine\<close>, \<^verbatim>\<open>NewTransaction\<close>, \<^verbatim>\<open>RegisterNode\<close> and \<^verbatim>\<open>ResolveConflicts\<close>, where
  every chain that a peer serves with status 200 is itself numbered from 1, the block
  at position \<open>i\<close> has the index \<open>i + 1\<close> (as an \<^verbatim>\<open>int64\<close>).
\<close>

theorem indices_sequential:
  assumes "reachable sha256 marshal url_Parse numbered_peers bc"
  shows "\<forall>i<length (chain_blocks bc). Index (chain_blocks bc ! i) = of_nat (i + 1)"
  using reachable_sequential [OF assms] by (simp only: sequential_nth)

theorem indices_sequential_witness:
  "reachable sha256_stub marshal_stub url_Parse_stub numbered_peers
      (ledger_a\<lparr>chain_blocks := [genesis_block, second_block]\<rparr>)
   \<and> Index ([genesis_block, second_block] ! 0) = 1
   \<and> Index ([genesis_block, second_block] ! 1) = 2"
proof -
  have r: "reachable sha256_stub marshal_stub url_Parse_stub numbered_peers
      (ledger_a\<lparr>chain_blocks := [genesis_block, second_block]\<rparr>)"
    by (rule r_resolve [OF reachable_ledger_a [of numbered_peers] numbered_peers_longer
          ResolveConflicts_longer_stub])
  from indices_sequential [OF r]
  have a: "\<forall>i<2. Index ([genesis_block, second_block] ! i) = of_nat (i + 1)" by simp
  have "Index ([genesis_block, second_block] ! 0) = 1" using a [THEN spec, of 0] by simp
  moreover have "Index ([genesis_block, second_block] ! 1) = 2" using a [THEN spec, of 1] by simp
  ultimately show ?thesis using r by simp
qed

text \<open>
  C9 as stated fails: \<^verbatim>\<open>ValidChain\<close> does not look at indices, so a peer's chain whose
  second block carries the index 5 is installed as it is.
\<close>

theorem indices_not_sequential_counterexample:
  "reachable sha256_stub marshal_stub url_Parse_stub any_peers
      (ledger_a\<lparr>chain_blocks := [genesis_block, misnumbered_block]\<rparr>)
   \<and> Index (chain_blocks (ledger_a\<lparr>chain_blocks := [genesis_block, misnumbered_block]\<rparr>) ! 1) = 5
   \<and> Index (chain_blocks (ledger_a\<lparr>chain_blocks := [genesis_block, misnumbered_block]\<rparr>) ! 1)
       \<noteq> of_nat (1 + 1)"
proof -
  have p: "any_peers http_Get_misnumbered" by (simp add: any_peers_def)
  have "reachable sha256_stub marshal_stub url_Parse_stub any_peers
      (ledger_a\<lparr>chain_blocks := [genesis_block, misnumbered_block]\<rparr>)"
    by (rule r_resolve [OF reachable_ledger_a [of any_peers] p
          ResolveConflicts_misnumbered_stub])
  then show ?thesis by (simp add: misnumbered_block_def)
qed

text \<open>
  C10. \<^verbatim>\<open>NewBlockchain\<close> makes a ledger whose chain is the genesis block alone, with
  proof 100 and previous hash \<^verbatim>\<open>1\<close>; \<^verbatim>\<open>NewBlock\<close>, \<^verbatim>\<open>NewTransaction\<close>, \<^verbatim>\<open>RegisterNode\<close>
  and \<^verbatim>\<open>ResolveConflicts\<close> leave a non-empty chain non-empty; so in every reachable
  ledger the chain is not empty, \<^verbatim>\<open>LastBlock\<close> returns its last block and
  \<^verbatim>\<open>NewTransaction\<close> returns.
\<close>

theorem chain_never_empty:
  "NewBlockchain sha256 marshal now =
     Inr \<lparr>chain_blocks = [\<lparr>Index = 1, Timestamp = now, Transactions = [], Proof = 100,
                             PreviousHash = ''1''\<rparr>],
          transactions = [], nodes = NewStringSet\<rparr>
   \<and> (chain_blocks bc \<noteq> [] \<longrightarrow>
        (\<forall>t p previousHash b bc'.
            NewBlock sha256 marshal t p previousHash bc = Inr (b, bc') \<longrightarrow> chain_blocks bc' \<noteq> [])
      \<and> (\<forall>tx i bc'. NewTransaction tx bc = Inr (i, bc') \<longrightarrow> chain_blocks bc' \<noteq> [])
      \<and> (\<forall>address r bc'. RegisterNode url_Parse address bc = (r, bc') \<longrightarrow> chain_blocks bc' \<noteq> [])
      \<and> (\<forall>http_Get r bc'.
            ResolveConflicts sha256 marshal http_Get bc = Inr (r, bc') \<longrightarrow> chain_blocks bc' \<noteq> []))
   \<and> (reachable sha256 marshal url_Parse peers bc \<longrightarrow>
        chain_blocks bc \<noteq> []
      \<and> LastBlock bc = Inr (last (chain_blocks bc))
      \<and> (\<forall>tx. NewTransaction tx bc =
                 Inr (Index (last (chain_blocks bc)) + 1,
                      bc\<lparr>transactions := transactions bc @ [tx]\<rparr>)))"
proof (intro conjI impI allI)
  show "NewBlockchain sha256 marshal now =
     Inr \<lparr>chain_blocks = [\<lparr>Index = 1, Timestamp = now, Transactions = [], Proof = 100,
                             PreviousHash = ''1''\<rparr>],
          transactions = [], nodes = NewStringSet\<rparr>"
    by (rule NewBlockchain_eq)
next
  fix t p previousHash b bc'
  assume "NewBlock sha256 marshal t p previousHash bc = Inr (b, bc')"
  then show "chain_blocks bc' \<noteq> []" using NewBlock_appends(1) by fastforce
next
  fix tx i bc'
  assume "chain_blocks bc \<noteq> []" "NewTransaction tx bc = Inr (i, bc')"
  then show "chain_blocks bc' \<noteq> []" using NewTransaction_result(1) by fastforce
next
  fix address r bc'
  assume "chain_blocks bc \<noteq> []" "RegisterNode url_Parse address bc = (r, bc')"
  then show "chain_blocks bc' \<noteq> []" using RegisterNode_frame(1) by fastforce
next
  fix http_Get r bc'
  assume "chain_blocks bc \<noteq> []" "ResolveConflicts sha256 marshal http_Get bc = Inr (r, bc')"
  then show "chain_blocks bc' \<noteq> []" using ResolveConflicts_nonempty by blast
next
  assume "reachable sha256 marshal url_Parse peers bc"
  then show "chain_blocks bc \<noteq> []" by (rule reachable_nonempty)
next
  assume "reachable sha256 marshal url_Parse peers bc"
  then show "LastBlock bc = Inr (last (chain_blocks bc))"
    by (simp add: reachable_nonempty LastBlock_nonempty)
next
  fix tx
  assume "reachable sha256 marshal url_Parse peers bc"
  then show "NewTransaction tx bc =
                 Inr (Index (last (chain_blocks bc)) + 1,
                      bc\<lparr>transactions := transactions bc @ [tx]\<rparr>)"
    by (simp add: reachable_nonempty NewTransaction_nonempty)
qed

theorem chain_never_empty_witness:
  "reachable sha256_stub marshal_stub url_Parse_stub any_peers ledger_a
   \<and> chain_blocks ledger_a \<noteq> []
   \<and> LastBlock ledger_a = Inr genesis_block
   \<and> NewTransaction tx_fee5 ledger_a = Inr (2, ledger_a\<lparr>transactions := [tx_fee5]\<rparr>)"
proof -
  have r: "reachable sha256_stub marshal_stub url_Parse_stub any_peers ledger_a"
    by (rule reachable_ledger_a)
  have l: "last (chain_blocks ledger_a) = genesis_block" "transactions ledger_a = []"
    by (simp_all add: ledger_a_def)
  have i: "Index genesis_block + 1 = 2" by (simp add: genesis_block_def)
  from chain_never_empty [of sha256_stub marshal_stub 0 ledger_a url_Parse_stub any_peers] r
  have "chain_blocks ledger_a \<noteq> []
      \<and> LastBlock ledger_a = Inr (last (chain_blocks ledger_a))
      \<and> (\<forall>tx. NewTransaction tx ledger_a =
                 Inr (Index (last (chain_blocks ledger_a)) + 1,
                      ledger_a\<lparr>transactions := transactions ledger_a @ [tx]\<rparr>))"
    by blast
  then show ?thesis using r l i by simp
qed

end
